theory Spec2Isabelle
  imports Complex_Main
begin

section \<open>Finite-difference kernel of FD\_nonlinear\_stiff.py\<close>

text \<open>
  The numerical kernel of the script (lines 78--122) computes the step \<open>h\<close>, the grid
  \<open>t\<close> and three trajectories \<open>x_back\<close>, \<open>x_cent\<close>, \<open>x_forw\<close> from the six scalars
  \<open>lam\<close>, \<open>alpha\<close>, \<open>T\<close>, \<open>x0\<close>, \<open>xT\<close>, \<open>N\<close>.

  The scalars and array entries are binary64 floating-point numbers.  Their arithmetic
  belongs to the Python runtime and to numpy, not to the script, so the model takes the
  number type \<open>'a\<close> and its operations as a parameter (\<open>float_ops\<close>) and makes no
  assumption about them: every theorem below that quantifies over \<open>A\<close> holds for any
  arithmetic, binary64 with its rounding, infinities and NaN included.  What the
  parameter fixes is only that each operation is a function of its operands.

  The grid size \<open>N\<close> is a natural number (the script receives a non-negative slider
  value); limits of the host (memory, the range of the conversion of \<open>N\<close> to a float)
  are outside the model.
\<close>

subsection \<open>Errors and the arithmetic parameter\<close>

datatype error = ZeroDivisionError | IndexError

record 'a float_ops =
  fl_of_int :: "int \<Rightarrow> 'a"
  fl_neg :: "'a \<Rightarrow> 'a"
  fl_add :: "'a \<Rightarrow> 'a \<Rightarrow> 'a"
  fl_sub :: "'a \<Rightarrow> 'a \<Rightarrow> 'a"
  fl_mul :: "'a \<Rightarrow> 'a \<Rightarrow> 'a"
  fl_div :: "'a \<Rightarrow> 'a \<Rightarrow> 'a"
  fl_pow :: "'a \<Rightarrow> 'a \<Rightarrow> 'a"
  fl_exp :: "'a \<Rightarrow> 'a"
  fl_is_zero :: "'a \<Rightarrow> bool"

text \<open>
  Exact real arithmetic is one instance of the parameter; it serves to run the model on
  concrete inputs.
\<close>

definition real_ops :: "real float_ops" where
  "real_ops =
     \<lparr>fl_of_int = of_int, fl_neg = uminus, fl_add = (+), fl_sub = (-), fl_mul = (*),
      fl_div = (/), fl_pow = (powr), fl_exp = exp, fl_is_zero = (\<lambda>x. x = 0)\<rparr>"

text \<open>Sequencing of steps that may raise: the first error aborts the rest.\<close>

definition err_bind :: "error + 'b \<Rightarrow> ('b \<Rightarrow> error + 'c) \<Rightarrow> error + 'c" where
  "err_bind m k = (case m of Inl e \<Rightarrow> Inl e | Inr v \<Rightarrow> k v)"

subsection \<open>Arrays\<close>

text \<open>
  A numpy array of fixed length is a list.  Reading and writing an element follow
  Python's indexing: a negative index counts from the end, and an index outside the
  array raises \<open>IndexError\<close>.
\<close>

definition norm_index :: "'a list \<Rightarrow> int \<Rightarrow> error + nat" where
  "norm_index xs i =
     (let n = int (length xs); j = (if i < 0 then n + i else i)
      in if 0 \<le> j \<and> j < n then Inr (nat j) else Inl IndexError)"

definition getitem :: "'a list \<Rightarrow> int \<Rightarrow> error + 'a" where
  "getitem xs i = err_bind (norm_index xs i) (\<lambda>j. Inr (xs ! j))"

definition setitem :: "'a list \<Rightarrow> int \<Rightarrow> 'a \<Rightarrow> error + 'a list" where
  "setitem xs i v = err_bind (norm_index xs i) (\<lambda>j. Inr (xs[j := v]))"

text \<open>\<open>np.zeros(n)\<close>: \<open>n\<close> entries, each the float zero.\<close>

definition zeros :: "'a float_ops \<Rightarrow> nat \<Rightarrow> 'a list" where
  "zeros A n = replicate n (fl_of_int A 0)"

text \<open>
  \<open>np.linspace(start, stop, num)\<close> with the default \<open>endpoint=True\<close>, after numpy's
  implementation for scalar end points: the samples are \<open>0, 1, ..\<close> scaled by the step
  and shifted by \<open>start\<close>, and the last sample is overwritten with \<open>stop\<close>.
\<close>

definition linspace :: "'a float_ops \<Rightarrow> 'a \<Rightarrow> 'a \<Rightarrow> nat \<Rightarrow> 'a list" where
  "linspace A start stop num =
     (let dv = int num - 1;
          delta = fl_sub A stop start;
          y = map (\<lambda>k. fl_of_int A (int k)) [0..<num];
          y = (if 0 < dv
               then (let stp = fl_div A delta (fl_of_int A dv)
                     in if fl_is_zero A stp
                        then map (\<lambda>v. fl_mul A (fl_div A v (fl_of_int A dv)) delta) y
                        else map (\<lambda>v. fl_mul A v stp) y)
               else map (\<lambda>v. fl_mul A v delta) y);
          y = map (\<lambda>v. fl_add A v start) y
      in if 1 < num then y[num - 1 := stop] else y)"

subsection \<open>Loops\<close>

text \<open>\<open>for i in range(a, b): body\<close>, the body acting on the loop's state.\<close>

fun for_each :: "nat list \<Rightarrow> (nat \<Rightarrow> 's \<Rightarrow> error + 's) \<Rightarrow> 's \<Rightarrow> error + 's" where
  "for_each [] body s = Inr s"
| "for_each (i # is) body s = err_bind (body i s) (for_each is body)"

definition for_range :: "nat \<Rightarrow> nat \<Rightarrow> (nat \<Rightarrow> 's \<Rightarrow> error + 's) \<Rightarrow> 's \<Rightarrow> error + 's" where
  "for_range a b body s = for_each [a..<b] body s"

subsection \<open>The step and the right-hand side\<close>

text \<open>
  \<open>h = T / N\<close> divides a Python float by a Python int, which raises
  \<open>ZeroDivisionError\<close> when the divisor is zero.
\<close>

definition py_truediv :: "'a float_ops \<Rightarrow> 'a \<Rightarrow> nat \<Rightarrow> error + 'a" where
  "py_truediv A x n =
     (if n = 0 then Inl ZeroDivisionError else Inr (fl_div A x (fl_of_int A (int n))))"

text \<open>\<open>def f(x): return -lam * x + x**alpha\<close>, with \<open>lam\<close> and \<open>alpha\<close> passed explicitly.\<close>

definition f :: "'a float_ops \<Rightarrow> 'a \<Rightarrow> 'a \<Rightarrow> 'a \<Rightarrow> 'a" where
  "f A lam alpha x = fl_add A (fl_mul A (fl_neg A lam) x) (fl_pow A x alpha)"

subsection \<open>Backward difference\<close>

text \<open>
  The update of the fixed-point iteration,
  \<open>xi = (x_back[i - 1] + h * xi**alpha) / (1 + h * lam)\<close>, as a function of the
  previous grid value and the current iterate.  The operands are numpy scalars, whose
  division does not raise.
\<close>

definition fixed_point_update :: "'a float_ops \<Rightarrow> 'a \<Rightarrow> 'a \<Rightarrow> 'a \<Rightarrow> 'a \<Rightarrow> 'a \<Rightarrow> 'a" where
  "fixed_point_update A lam alpha h prev xi =
     fl_div A (fl_add A prev (fl_mul A h (fl_pow A xi alpha)))
       (fl_add A (fl_of_int A 1) (fl_mul A h lam))"

text \<open>The body of \<open>for _ in range(15)\<close>: it reads \<open>x_back[i - 1]\<close> anew each time.\<close>

definition fixed_point_body ::
  "'a float_ops \<Rightarrow> 'a \<Rightarrow> 'a \<Rightarrow> 'a \<Rightarrow> 'a list \<Rightarrow> nat \<Rightarrow> nat \<Rightarrow> 'a \<Rightarrow> error + 'a" where
  "fixed_point_body A lam alpha h x_back i k xi =
     err_bind (getitem x_back (int i - 1))
       (\<lambda>prev. Inr (fixed_point_update A lam alpha h prev xi))"

text \<open>The body of \<open>for i in range(1, N)\<close>.\<close>

definition back_body ::
  "'a float_ops \<Rightarrow> 'a \<Rightarrow> 'a \<Rightarrow> 'a \<Rightarrow> nat \<Rightarrow> 'a list \<Rightarrow> error + 'a list" where
  "back_body A lam alpha h i x_back =
     err_bind (getitem x_back (int i - 1)) (\<lambda>xi0.
     err_bind (for_range 0 15 (fixed_point_body A lam alpha h x_back i) xi0) (\<lambda>xi.
     setitem x_back (int i) xi))"

definition backward ::
  "'a float_ops \<Rightarrow> 'a \<Rightarrow> 'a \<Rightarrow> 'a \<Rightarrow> 'a \<Rightarrow> 'a \<Rightarrow> nat \<Rightarrow> error + 'a list" where
  "backward A lam alpha h x0 xT N =
     err_bind (setitem (zeros A (N + 1)) 0 x0) (\<lambda>x_back.
     err_bind (setitem x_back (- 1) xT) (\<lambda>x_back.
     for_range 1 N (back_body A lam alpha h) x_back))"

subsection \<open>Central difference\<close>

text \<open>The body of the loop: \<open>x_cent[i + 1] = x_cent[i - 1] + 2 * h * f(x_cent[i])\<close>.\<close>

definition cent_body ::
  "'a float_ops \<Rightarrow> 'a \<Rightarrow> 'a \<Rightarrow> 'a \<Rightarrow> nat \<Rightarrow> 'a list \<Rightarrow> error + 'a list" where
  "cent_body A lam alpha h i x_cent =
     err_bind (getitem x_cent (int i - 1)) (\<lambda>prev.
     err_bind (getitem x_cent (int i)) (\<lambda>cur.
     setitem x_cent (int i + 1)
       (fl_add A prev (fl_mul A (fl_mul A (fl_of_int A 2) h) (f A lam alpha cur)))))"

definition central ::
  "'a float_ops \<Rightarrow> 'a \<Rightarrow> 'a \<Rightarrow> 'a \<Rightarrow> 'a \<Rightarrow> 'a \<Rightarrow> nat \<Rightarrow> error + 'a list" where
  "central A lam alpha h x0 xT N =
     err_bind (setitem (zeros A (N + 1)) 0 x0) (\<lambda>x_cent.
     err_bind (setitem x_cent (- 1) xT) (\<lambda>x_cent.
     err_bind (setitem x_cent 1 (fl_mul A x0 (fl_exp A (fl_mul A (fl_neg A lam) h)))) (\<lambda>x_cent.
     for_range 1 N (cent_body A lam alpha h) x_cent)))"

subsection \<open>Forward difference\<close>

text \<open>The body of the loop: \<open>x_forw[i + 1] = x_forw[i] + h * f(x_forw[i])\<close>.\<close>

definition forw_body ::
  "'a float_ops \<Rightarrow> 'a \<Rightarrow> 'a \<Rightarrow> 'a \<Rightarrow> nat \<Rightarrow> 'a list \<Rightarrow> error + 'a list" where
  "forw_body A lam alpha h i x_forw =
     err_bind (getitem x_forw (int i)) (\<lambda>cur.
     err_bind (getitem x_forw (int i)) (\<lambda>arg.
     setitem x_forw (int i + 1) (fl_add A cur (fl_mul A h (f A lam alpha arg)))))"

definition forward ::
  "'a float_ops \<Rightarrow> 'a \<Rightarrow> 'a \<Rightarrow> 'a \<Rightarrow> 'a \<Rightarrow> nat \<Rightarrow> error + 'a list" where
  "forward A lam alpha h x0 N =
     err_bind (setitem (zeros A (N + 1)) 0 x0) (\<lambda>x_forw.
     for_range 0 N (forw_body A lam alpha h) x_forw)"

subsection \<open>The kernel\<close>

text \<open>
  The script's variables: the six inputs read from the widgets, and the five variables
  the kernel assigns.  A run starts from any environment (whatever an earlier run left
  in the assigned variables) and yields the environment after line 122, or the error
  that aborted it.
\<close>

record 'a env =
  lam :: 'a
  alpha :: 'a
  T :: 'a
  x0 :: 'a
  xT :: 'a
  N :: nat
  h :: 'a
  t :: "'a list"
  x_back :: "'a list"
  x_cent :: "'a list"
  x_forw :: "'a list"

definition kernel :: "'a float_ops \<Rightarrow> 'a env \<Rightarrow> error + 'a env" where
  "kernel A s =
     err_bind (py_truediv A (T s) (N s)) (\<lambda>hv.
     let tv = linspace A (fl_of_int A 0) (T s) (N s + 1) in
     err_bind (backward A (lam s) (alpha s) hv (x0 s) (xT s) (N s)) (\<lambda>xb.
     err_bind (central A (lam s) (alpha s) hv (x0 s) (xT s) (N s)) (\<lambda>xc.
     err_bind (forward A (lam s) (alpha s) hv (x0 s) (N s)) (\<lambda>xf.
     Inr (s\<lparr>h := hv, t := tv, x_back := xb, x_cent := xc, x_forw := xf\<rparr>)))))"

text \<open>The inputs of a run and what it hands to the plots.\<close>

definition inputs :: "'a env \<Rightarrow> 'a \<times> 'a \<times> 'a \<times> 'a \<times> 'a \<times> nat" where
  "inputs s = (lam s, alpha s, T s, x0 s, xT s, N s)"

definition outputs :: "'a env \<Rightarrow> 'a list \<times> 'a list \<times> 'a list \<times> 'a list" where
  "outputs s = (t s, x_back s, x_cent s, x_forw s)"

subsection \<open>Concrete environments\<close>

text \<open>
  An environment as a run finds it: the six inputs set, the assigned variables holding
  placeholders that the kernel overwrites.
\<close>

definition start_env ::
  "'a float_ops \<Rightarrow> 'a \<Rightarrow> 'a \<Rightarrow> 'a \<Rightarrow> 'a \<Rightarrow> 'a \<Rightarrow> nat \<Rightarrow> 'a env" where
  "start_env A l a d u v n =
     \<lparr>lam = l, alpha = a, T = d, x0 = u, xT = v, N = n,
      h = fl_of_int A 0, t = [], x_back = [], x_cent = [], x_forw = []\<rparr>"

section \<open>Basic facts\<close>

subsection \<open>Errors, indexing and loops\<close>

lemma err_bind_Inr: "err_bind (Inr v) k = k v"
  by (simp add: err_bind_def)

lemma err_bind_Inl: "err_bind (Inl e) k = Inl e"
  by (simp add: err_bind_def)

lemma norm_index_nat: "i < length xs \<Longrightarrow> norm_index xs (int i) = Inr i"
  by (simp add: norm_index_def)

lemma norm_index_pred: "0 < i \<Longrightarrow> i \<le> length xs \<Longrightarrow> norm_index xs (int i - 1) = Inr (i - 1)"
  by (simp add: norm_index_def Let_def nat_diff_distrib')

lemma norm_index_succ: "Suc i < length xs \<Longrightarrow> norm_index xs (int i + 1) = Inr (Suc i)"
  by (simp add: norm_index_def Let_def nat_add_distrib)

lemma norm_index_last: "xs \<noteq> [] \<Longrightarrow> norm_index xs (- 1) = Inr (length xs - 1)"
  by (cases xs) (simp_all add: norm_index_def Let_def)

lemma getitem_nat: "i < length xs \<Longrightarrow> getitem xs (int i) = Inr (xs ! i)"
  by (simp add: getitem_def norm_index_nat err_bind_Inr)

lemma getitem_pred: "0 < i \<Longrightarrow> i \<le> length xs \<Longrightarrow> getitem xs (int i - 1) = Inr (xs ! (i - 1))"
  by (simp add: getitem_def norm_index_pred err_bind_Inr)

lemma setitem_nat: "i < length xs \<Longrightarrow> setitem xs (int i) v = Inr (xs[i := v])"
  by (simp add: setitem_def norm_index_nat err_bind_Inr)

lemma setitem_succ: "Suc i < length xs \<Longrightarrow> setitem xs (int i + 1) v = Inr (xs[Suc i := v])"
  by (simp add: setitem_def norm_index_succ err_bind_Inr)

lemma setitem_zero: "xs \<noteq> [] \<Longrightarrow> setitem xs 0 v = Inr (xs[0 := v])"
  using setitem_nat [of 0 xs v] by simp

lemma setitem_one: "1 < length xs \<Longrightarrow> setitem xs 1 v = Inr (xs[1 := v])"
  using setitem_nat [of 1 xs v] by simp

lemma setitem_last: "xs \<noteq> [] \<Longrightarrow> setitem xs (- 1) v = Inr (xs[length xs - 1 := v])"
  by (simp add: setitem_def norm_index_last err_bind_Inr)

lemma for_range_invariant:
  assumes "a \<le> b" and "I a s"
    and "\<And>i s. a \<le> i \<Longrightarrow> i < b \<Longrightarrow> I i s \<Longrightarrow> \<exists>s'. body i s = Inr s' \<and> I (Suc i) s'"
  shows "\<exists>s'. for_range a b body s = Inr s' \<and> I b s'"
  using assms
proof (induction "b - a" arbitrary: a s)
  case 0
  then show ?case by (simp add: for_range_def)
next
  case (Suc d)
  from Suc.hyps(2) have lt: "a < b" by simp
  from Suc.prems(3) [of a s] lt Suc.prems(2)
  obtain s1 where s1: "body a s = Inr s1" "I (Suc a) s1" by auto
  have "\<exists>s'. for_range (Suc a) b body s1 = Inr s' \<and> I b s'"
  proof (rule Suc.hyps(1))
    show "d = b - Suc a" using Suc.hyps(2) by simp
    show "Suc a \<le> b" using lt by simp
    show "I (Suc a) s1" by (rule s1(2))
    show "\<And>i s. Suc a \<le> i \<Longrightarrow> i < b \<Longrightarrow> I i s \<Longrightarrow> \<exists>s'. body i s = Inr s' \<and> I (Suc i) s'"
      using Suc.prems(3) by simp
  qed
  then show ?case
    using lt s1(1) by (simp add: for_range_def upt_conv_Cons err_bind_Inr)
qed

lemma for_each_pure:
  assumes "\<And>k v. body k v = Inr (g v)"
  shows "for_each ks body v = Inr ((g ^^ length ks) v)"
proof (induction ks arbitrary: v)
  case Nil
  show ?case by simp
next
  case (Cons k ks)
  have "for_each (k # ks) body v = for_each ks body (g v)"
    using assms [of k v] by (simp add: err_bind_Inr)
  also have "\<dots> = Inr ((g ^^ length ks) (g v))"
    by (rule Cons.IH)
  finally show ?case by (simp add: funpow_swap1)
qed

lemma for_range_pure:
  assumes "\<And>k v. body k v = Inr (g v)"
  shows "for_range a b body v = Inr ((g ^^ (b - a)) v)"
  using for_each_pure [of body g "[a..<b]" v] assms by (simp add: for_range_def)

subsection \<open>The three schemes\<close>

lemma length_zeros: "length (zeros A n) = n"
  by (simp add: zeros_def)

lemma fixed_point_body_eq:
  assumes "0 < i" and "i \<le> length xs"
  shows "fixed_point_body A L E H xs i k v = Inr (fixed_point_update A L E H (xs ! (i - 1)) v)"
  using assms by (simp add: fixed_point_body_def getitem_pred err_bind_Inr)

lemma back_body_eq:
  assumes "0 < i" and "i < length xs"
  shows "back_body A L E H i xs =
    Inr (xs[i := (fixed_point_update A L E H (xs ! (i - 1)) ^^ 15) (xs ! (i - 1))])"
proof -
  have le: "i \<le> length xs" using assms(2) by simp
  have loop: "for_range 0 15 (fixed_point_body A L E H xs i) v =
      Inr ((fixed_point_update A L E H (xs ! (i - 1)) ^^ 15) v)" for v
    using for_range_pure [of "fixed_point_body A L E H xs i"
        "fixed_point_update A L E H (xs ! (i - 1))" 0 15 v]
      fixed_point_body_eq [OF assms(1) le]
    by simp
  show ?thesis
    using assms by (simp add: back_body_def getitem_pred le loop setitem_nat err_bind_Inr)
qed

lemma backward_init:
  "backward A L E H a b n =
     for_range 1 n (back_body A L E H) ((zeros A (n + 1))[0 := a, n := b])"
proof -
  have ne: "zeros A (n + 1) \<noteq> []" by (simp add: zeros_def)
  have ne2: "(zeros A (n + 1))[0 := a] \<noteq> []" using ne by simp
  show ?thesis
    using setitem_zero [OF ne, of a] setitem_last [OF ne2, of b]
    by (simp add: backward_def err_bind_Inr length_zeros)
qed

lemma backward_result:
  assumes "1 \<le> n"
  shows "\<exists>xs. backward A L E H a b n = Inr xs \<and> length xs = n + 1 \<and> xs ! 0 = a \<and> xs ! n = b \<and>
    (\<forall>i. 1 \<le> i \<and> i < n \<longrightarrow>
       xs ! i = (fixed_point_update A L E H (xs ! (i - 1)) ^^ 15) (xs ! (i - 1)))"
proof -
  define I where "I = (\<lambda>(i::nat) xs. length xs = n + 1 \<and> xs ! 0 = a \<and> xs ! n = b \<and>
    (\<forall>j. 1 \<le> j \<and> j < i \<longrightarrow>
       xs ! j = (fixed_point_update A L E H (xs ! (j - 1)) ^^ 15) (xs ! (j - 1))))"
  define ys where "ys = (zeros A (n + 1))[0 := a, n := b]"
  have init: "I 1 ys"
    using assms by (simp add: I_def ys_def length_zeros nth_list_update)
  have step: "\<exists>xs'. back_body A L E H i xs = Inr xs' \<and> I (Suc i) xs'"
    if "1 \<le> i" "i < n" "I i xs" for i xs
  proof -
    have len: "length xs = n + 1" using that(3) by (simp add: I_def)
    have pos: "0 < i" and inb: "i < length xs" using that(1,2) len by simp_all
    let ?v = "(fixed_point_update A L E H (xs ! (i - 1)) ^^ 15) (xs ! (i - 1))"
    have eq: "back_body A L E H i xs = Inr (xs[i := ?v])"
      by (rule back_body_eq [OF pos inb])
    have "I (Suc i) (xs[i := ?v])"
      unfolding I_def
    proof (intro conjI allI impI)
      show "length (xs[i := ?v]) = n + 1" using len by simp
      show "xs[i := ?v] ! 0 = a" using that(3) pos by (simp add: I_def)
      show "xs[i := ?v] ! n = b" using that(2,3) by (simp add: I_def)
      fix j assume j: "1 \<le> j \<and> j < Suc i"
      show "xs[i := ?v] ! j =
        (fixed_point_update A L E H (xs[i := ?v] ! (j - 1)) ^^ 15) (xs[i := ?v] ! (j - 1))"
      proof (cases "j = i")
        case True
        then show ?thesis using inb pos by simp
      next
        case False
        then have "j < i" using j by simp
        then show ?thesis using that(3) j by (simp add: I_def)
      qed
    qed
    then show ?thesis using eq by simp
  qed
  have "\<exists>xs. for_range 1 n (back_body A L E H) ys = Inr xs \<and> I n xs"
    by (rule for_range_invariant [where I = I, OF assms init step])
  then show ?thesis
    by (simp add: backward_init ys_def I_def)
qed

lemma cent_body_eq:
  assumes "0 < i" and "Suc i < length xs"
  shows "cent_body A L E H i xs =
    Inr (xs[Suc i := fl_add A (xs ! (i - 1))
           (fl_mul A (fl_mul A (fl_of_int A 2) H) (f A L E (xs ! i)))])"
  using assms
  by (simp add: cent_body_def getitem_pred getitem_nat setitem_succ err_bind_Inr)

lemma central_init:
  assumes "1 \<le> n"
  shows "central A L E H a b n =
     for_range 1 n (cent_body A L E H)
       ((zeros A (n + 1))[0 := a, n := b, 1 := fl_mul A a (fl_exp A (fl_mul A (fl_neg A L) H))])"
proof -
  have ne: "zeros A (n + 1) \<noteq> []" by (simp add: zeros_def)
  have ne2: "(zeros A (n + 1))[0 := a] \<noteq> []" using ne by simp
  have l3: "1 < length ((zeros A (n + 1))[0 := a, n := b])"
    using assms by (simp add: length_zeros)
  show ?thesis
    using setitem_zero [OF ne, of a] setitem_last [OF ne2, of b]
      setitem_one [OF l3, of "fl_mul A a (fl_exp A (fl_mul A (fl_neg A L) H))"]
    by (simp add: central_def err_bind_Inr length_zeros)
qed

lemma central_result:
  assumes "1 \<le> n"
  shows "\<exists>xs. central A L E H a b n = Inr xs \<and> length xs = n + 1 \<and> xs ! 0 = a \<and>
    xs ! 1 = fl_mul A a (fl_exp A (fl_mul A (fl_neg A L) H)) \<and>
    (\<forall>i. 1 \<le> i \<and> i < n \<longrightarrow>
       xs ! (i + 1) = fl_add A (xs ! (i - 1))
         (fl_mul A (fl_mul A (fl_of_int A 2) H) (f A L E (xs ! i))))"
proof -
  let ?seed = "fl_mul A a (fl_exp A (fl_mul A (fl_neg A L) H))"
  define I where "I = (\<lambda>(i::nat) xs. length xs = n + 1 \<and> xs ! 0 = a \<and> xs ! 1 = ?seed \<and>
    (\<forall>j. 1 \<le> j \<and> j < i \<longrightarrow>
       xs ! (j + 1) = fl_add A (xs ! (j - 1))
         (fl_mul A (fl_mul A (fl_of_int A 2) H) (f A L E (xs ! j)))))"
  define ys where "ys = (zeros A (n + 1))[0 := a, n := b, 1 := ?seed]"
  have init: "I 1 ys"
    using assms by (simp add: I_def ys_def length_zeros nth_list_update)
  have step: "\<exists>xs'. cent_body A L E H i xs = Inr xs' \<and> I (Suc i) xs'"
    if "1 \<le> i" "i < n" "I i xs" for i xs
  proof -
    have len: "length xs = n + 1" using that(3) by (simp add: I_def)
    have pos: "0 < i" and inb: "Suc i < length xs" using that(1,2) len by simp_all
    let ?v = "fl_add A (xs ! (i - 1)) (fl_mul A (fl_mul A (fl_of_int A 2) H) (f A L E (xs ! i)))"
    have eq: "cent_body A L E H i xs = Inr (xs[Suc i := ?v])"
      by (rule cent_body_eq [OF pos inb])
    have "I (Suc i) (xs[Suc i := ?v])"
      unfolding I_def
    proof (intro conjI allI impI)
      show "length (xs[Suc i := ?v]) = n + 1" using len by simp
      show "xs[Suc i := ?v] ! 0 = a" using that(3) by (simp add: I_def)
      show "xs[Suc i := ?v] ! 1 = ?seed" using that(3) pos by (simp add: I_def)
      fix j assume j: "1 \<le> j \<and> j < Suc i"
      show "xs[Suc i := ?v] ! (j + 1) = fl_add A (xs[Suc i := ?v] ! (j - 1))
         (fl_mul A (fl_mul A (fl_of_int A 2) H) (f A L E (xs[Suc i := ?v] ! j)))"
      proof (cases "j = i")
        case True
        then show ?thesis using inb pos by simp
      next
        case False
        then have "j < i" using j by simp
        then show ?thesis using that(3) j by (simp add: I_def)
      qed
    qed
    then show ?thesis using eq by simp
  qed
  have "\<exists>xs. for_range 1 n (cent_body A L E H) ys = Inr xs \<and> I n xs"
    by (rule for_range_invariant [where I = I, OF assms init step])
  then show ?thesis
    by (simp add: central_init [OF assms] ys_def I_def)
qed

lemma forw_body_eq:
  assumes "Suc i < length xs"
  shows "forw_body A L E H i xs =
    Inr (xs[Suc i := fl_add A (xs ! i) (fl_mul A H (f A L E (xs ! i)))])"
  using assms
  by (simp add: forw_body_def getitem_nat setitem_succ err_bind_Inr)

lemma forward_init:
  "forward A L E H a n = for_range 0 n (forw_body A L E H) ((zeros A (n + 1))[0 := a])"
proof -
  have ne: "zeros A (n + 1) \<noteq> []" by (simp add: zeros_def)
  show ?thesis
    using setitem_zero [OF ne, of a] by (simp add: forward_def err_bind_Inr)
qed

lemma forward_result:
  "\<exists>xs. forward A L E H a n = Inr xs \<and> length xs = n + 1 \<and> xs ! 0 = a \<and>
    (\<forall>i. i < n \<longrightarrow> xs ! (i + 1) = fl_add A (xs ! i) (fl_mul A H (f A L E (xs ! i))))"
proof -
  define I where "I = (\<lambda>(i::nat) xs. length xs = n + 1 \<and> xs ! 0 = a \<and>
    (\<forall>j. j < i \<longrightarrow> xs ! (j + 1) = fl_add A (xs ! j) (fl_mul A H (f A L E (xs ! j)))))"
  define ys where "ys = (zeros A (n + 1))[0 := a]"
  have init: "I 0 ys"
    by (simp add: I_def ys_def length_zeros)
  have step: "\<exists>xs'. forw_body A L E H i xs = Inr xs' \<and> I (Suc i) xs'"
    if "0 \<le> i" "i < n" "I i xs" for i xs
  proof -
    have len: "length xs = n + 1" using that(3) by (simp add: I_def)
    have inb: "Suc i < length xs" using that(2) len by simp
    let ?v = "fl_add A (xs ! i) (fl_mul A H (f A L E (xs ! i)))"
    have eq: "forw_body A L E H i xs = Inr (xs[Suc i := ?v])"
      by (rule forw_body_eq [OF inb])
    have "I (Suc i) (xs[Suc i := ?v])"
      unfolding I_def
    proof (intro conjI allI impI)
      show "length (xs[Suc i := ?v]) = n + 1" using len by simp
      show "xs[Suc i := ?v] ! 0 = a" using that(3) by (simp add: I_def)
      fix j assume j: "j < Suc i"
      show "xs[Suc i := ?v] ! (j + 1) =
        fl_add A (xs[Suc i := ?v] ! j) (fl_mul A H (f A L E (xs[Suc i := ?v] ! j)))"
      proof (cases "j = i")
        case True
        then show ?thesis using inb by simp
      next
        case False
        then have "j < i" using j by simp
        then show ?thesis using that(3) by (simp add: I_def)
      qed
    qed
    then show ?thesis using eq by simp
  qed
  have "\<exists>xs. for_range 0 n (forw_body A L E H) ys = Inr xs \<and> I n xs"
    by (rule for_range_invariant [where I = I, OF _ init step]) simp
  then show ?thesis
    by (simp add: forward_init ys_def I_def)
qed

subsection \<open>Running the kernel\<close>

lemma kernel_zero: "N s = 0 \<Longrightarrow> kernel A s = Inl ZeroDivisionError"
  by (simp add: kernel_def py_truediv_def err_bind_Inl)

lemma backward_total:
  assumes "1 \<le> n"
  shows "\<exists>xs. backward A L E H a b n = Inr xs"
  using backward_result [OF assms, of A L E H a b] by (elim exE conjE, intro exI)

lemma central_total:
  assumes "1 \<le> n"
  shows "\<exists>xs. central A L E H a b n = Inr xs"
  using central_result [OF assms, of A L E H a b] by (elim exE conjE, intro exI)

lemma forward_total: "\<exists>xs. forward A L E H a n = Inr xs"
  using forward_result [of A L E H a n] by (elim exE conjE, intro exI)

lemma py_truediv_pos: "1 \<le> n \<Longrightarrow> py_truediv A x n = Inr (fl_div A x (fl_of_int A (int n)))"
  by (simp add: py_truediv_def)

lemma kernel_eq:
  assumes "1 \<le> N s"
    and "backward A (lam s) (alpha s) (fl_div A (T s) (fl_of_int A (int (N s)))) (x0 s) (xT s) (N s) = Inr xb"
    and "central A (lam s) (alpha s) (fl_div A (T s) (fl_of_int A (int (N s)))) (x0 s) (xT s) (N s) = Inr xc"
    and "forward A (lam s) (alpha s) (fl_div A (T s) (fl_of_int A (int (N s)))) (x0 s) (N s) = Inr xf"
  shows "kernel A s = Inr (s\<lparr>h := fl_div A (T s) (fl_of_int A (int (N s))),
      t := linspace A (fl_of_int A 0) (T s) (N s + 1),
      x_back := xb, x_cent := xc, x_forw := xf\<rparr>)"
  apply (subst kernel_def)
  apply (subst py_truediv_pos [OF assms(1)])
  apply (subst err_bind_Inr)
  apply (subst Let_def)
  apply (subst assms(2))
  apply (subst err_bind_Inr)
  apply (subst assms(3))
  apply (subst err_bind_Inr)
  apply (subst assms(4))
  apply (subst err_bind_Inr)
  apply (rule refl)
  done

lemma kernel_run:
  assumes "1 \<le> N s"
  obtains s' where "kernel A s = Inr s'"
    and "inputs s' = inputs s"
    and "h s' = fl_div A (T s) (fl_of_int A (int (N s)))"
    and "t s' = linspace A (fl_of_int A 0) (T s) (N s + 1)"
    and "backward A (lam s) (alpha s) (h s') (x0 s) (xT s) (N s) = Inr (x_back s')"
    and "central A (lam s) (alpha s) (h s') (x0 s) (xT s) (N s) = Inr (x_cent s')"
    and "forward A (lam s) (alpha s) (h s') (x0 s) (N s) = Inr (x_forw s')"
proof -
  let ?hv = "fl_div A (T s) (fl_of_int A (int (N s)))"
  obtain xb where xb: "backward A (lam s) (alpha s) ?hv (x0 s) (xT s) (N s) = Inr xb"
    using backward_total [OF assms] ..
  obtain xc where xc: "central A (lam s) (alpha s) ?hv (x0 s) (xT s) (N s) = Inr xc"
    using central_total [OF assms] ..
  obtain xf where xf: "forward A (lam s) (alpha s) ?hv (x0 s) (N s) = Inr xf"
    using forward_total ..
  let ?r = "s\<lparr>h := ?hv, t := linspace A (fl_of_int A 0) (T s) (N s + 1),
      x_back := xb, x_cent := xc, x_forw := xf\<rparr>"
  have k: "kernel A s = Inr ?r"
    by (rule kernel_eq [OF assms xb xc xf])
  have i: "inputs ?r = inputs s" by (simp add: inputs_def)
  have hh: "h ?r = ?hv" by simp
  have tt: "t ?r = linspace A (fl_of_int A 0) (T s) (N s + 1)" by simp
  have b: "backward A (lam s) (alpha s) (h ?r) (x0 s) (xT s) (N s) = Inr (x_back ?r)"
    using xb by simp
  have c: "central A (lam s) (alpha s) (h ?r) (x0 s) (xT s) (N s) = Inr (x_cent ?r)"
    using xc by simp
  have fw: "forward A (lam s) (alpha s) (h ?r) (x0 s) (N s) = Inr (x_forw ?r)"
    using xf by simp
  show thesis
    by (rule that [OF k i hh tt b c fw])
qed

lemma length_linspace: "length (linspace A a b n) = n"
  by (simp add: linspace_def Let_def)

lemma linspace_last:
  assumes "1 < n"
  shows "linspace A a b n ! (n - 1) = b"
proof -
  have "n - 1 < n" using assms by simp
  then show ?thesis using assms by (simp add: linspace_def Let_def)
qed

lemma fixed_point_update_fun:
  "fixed_point_update A L E H p =
     (\<lambda>y. fl_div A (fl_add A p (fl_mul A H (fl_pow A y E)))
            (fl_add A (fl_of_int A 1) (fl_mul A H L)))"
  by (rule ext) (simp add: fixed_point_update_def)

lemma backward_props:
  assumes "1 \<le> n" and "backward A L E H a b n = Inr xs"
  shows "length xs = n + 1" and "xs ! 0 = a" and "xs ! n = b"
    and "\<And>i. 1 \<le> i \<Longrightarrow> i < n \<Longrightarrow>
      xs ! i = ((\<lambda>y. fl_div A (fl_add A (xs ! (i - 1)) (fl_mul A H (fl_pow A y E)))
            (fl_add A (fl_of_int A 1) (fl_mul A H L))) ^^ 15) (xs ! (i - 1))"
proof -
  obtain ys where ys: "backward A L E H a b n = Inr ys" "length ys = n + 1"
    "ys ! 0 = a" "ys ! n = b"
    "\<forall>i. 1 \<le> i \<and> i < n \<longrightarrow>
       ys ! i = (fixed_point_update A L E H (ys ! (i - 1)) ^^ 15) (ys ! (i - 1))"
    using backward_result [OF assms(1), of A L E H a b] by (elim exE conjE)
  have eq: "ys = xs" using ys(1) assms(2) by simp
  show "length xs = n + 1" using ys(2) eq by simp
  show "xs ! 0 = a" using ys(3) eq by simp
  show "xs ! n = b" using ys(4) eq by simp
  fix i assume i: "1 \<le> i" "i < n"
  have "xs ! i = (fixed_point_update A L E H (xs ! (i - 1)) ^^ 15) (xs ! (i - 1))"
    using ys(5) i eq by simp
  then show "xs ! i = ((\<lambda>y. fl_div A (fl_add A (xs ! (i - 1)) (fl_mul A H (fl_pow A y E)))
            (fl_add A (fl_of_int A 1) (fl_mul A H L))) ^^ 15) (xs ! (i - 1))"
    by (simp only: fixed_point_update_fun)
qed

lemma central_props:
  assumes "1 \<le> n" and "central A L E H a b n = Inr xs"
  shows "length xs = n + 1" and "xs ! 0 = a"
    and "xs ! 1 = fl_mul A a (fl_exp A (fl_mul A (fl_neg A L) H))"
    and "\<And>i. 1 \<le> i \<Longrightarrow> i < n \<Longrightarrow>
      xs ! (i + 1) = fl_add A (xs ! (i - 1))
         (fl_mul A (fl_mul A (fl_of_int A 2) H) (f A L E (xs ! i)))"
proof -
  obtain ys where ys: "central A L E H a b n = Inr ys" "length ys = n + 1" "ys ! 0 = a"
    "ys ! 1 = fl_mul A a (fl_exp A (fl_mul A (fl_neg A L) H))"
    "\<forall>i. 1 \<le> i \<and> i < n \<longrightarrow>
       ys ! (i + 1) = fl_add A (ys ! (i - 1))
         (fl_mul A (fl_mul A (fl_of_int A 2) H) (f A L E (ys ! i)))"
    using central_result [OF assms(1), of A L E H a b] by (elim exE conjE)
  have eq: "ys = xs" using ys(1) assms(2) by simp
  show "length xs = n + 1" using ys(2) eq by simp
  show "xs ! 0 = a" using ys(3) eq by simp
  show "xs ! 1 = fl_mul A a (fl_exp A (fl_mul A (fl_neg A L) H))" using ys(4) eq by simp
  fix i assume i: "1 \<le> i" "i < n"
  show "xs ! (i + 1) = fl_add A (xs ! (i - 1))
         (fl_mul A (fl_mul A (fl_of_int A 2) H) (f A L E (xs ! i)))"
    using ys(5) i eq by simp
qed

lemma forward_props:
  assumes "forward A L E H a n = Inr xs"
  shows "length xs = n + 1" and "xs ! 0 = a"
    and "\<And>i. i < n \<Longrightarrow>
      xs ! (i + 1) = fl_add A (xs ! i) (fl_mul A H (f A L E (xs ! i)))"
proof -
  obtain ys where ys: "forward A L E H a n = Inr ys" "length ys = n + 1" "ys ! 0 = a"
    "\<forall>i. i < n \<longrightarrow> ys ! (i + 1) = fl_add A (ys ! i) (fl_mul A H (f A L E (ys ! i)))"
    using forward_result [of A L E H a n] by (elim exE conjE)
  have eq: "ys = xs" using ys(1) assms by simp
  show "length xs = n + 1" using ys(2) eq by simp
  show "xs ! 0 = a" using ys(3) eq by simp
  fix i assume i: "i < n"
  show "xs ! (i + 1) = fl_add A (xs ! i) (fl_mul A H (f A L E (xs ! i)))"
    using ys(4) i eq by simp
qed

lemma funpow_fixed: "g x = x \<Longrightarrow> (g ^^ n) x = x"
  by (induction n) simp_all

lemma central_one:
  "central A L E H a b 1 = Inr [a, fl_mul A a (fl_exp A (fl_mul A (fl_neg A L) H))]"
  using central_init [of 1 A L E H a b] by (simp add: zeros_def for_range_def)

lemma kernel_total:
  assumes "1 \<le> N s"
  shows "\<exists>s'. kernel A s = Inr s'"
proof -
  obtain s' where "kernel A s = Inr s'" by (rule kernel_run [OF assms])
  then show ?thesis ..
qed

lemma inputs_eq_iff:
  "inputs r = inputs s \<longleftrightarrow>
     lam r = lam s \<and> alpha r = alpha s \<and> T r = T s \<and> x0 r = x0 s \<and> xT r = xT s \<and> N r = N s"
  by (simp add: inputs_def)

lemma kernel_same_inputs:
  assumes "inputs s2 = inputs s1"
  shows "map_sum id outputs (kernel A s2) = map_sum id outputs (kernel A s1)"
proof (cases "N s1 = 0")
  case True
  then have "N s2 = 0" using assms by (simp add: inputs_eq_iff)
  then show ?thesis using True by (simp add: kernel_zero)
next
  case False
  then have n1: "1 \<le> N s1" by simp
  then have n2: "1 \<le> N s2" using assms by (simp add: inputs_eq_iff)
  obtain r1 where k1: "kernel A s1 = Inr r1"
    and h1: "h r1 = fl_div A (T s1) (fl_of_int A (int (N s1)))"
    and t1: "t r1 = linspace A (fl_of_int A 0) (T s1) (N s1 + 1)"
    and b1: "backward A (lam s1) (alpha s1) (h r1) (x0 s1) (xT s1) (N s1) = Inr (x_back r1)"
    and c1: "central A (lam s1) (alpha s1) (h r1) (x0 s1) (xT s1) (N s1) = Inr (x_cent r1)"
    and f1: "forward A (lam s1) (alpha s1) (h r1) (x0 s1) (N s1) = Inr (x_forw r1)"
    by (rule kernel_run [OF n1])
  obtain r2 where k2: "kernel A s2 = Inr r2"
    and h2: "h r2 = fl_div A (T s2) (fl_of_int A (int (N s2)))"
    and t2: "t r2 = linspace A (fl_of_int A 0) (T s2) (N s2 + 1)"
    and b2: "backward A (lam s2) (alpha s2) (h r2) (x0 s2) (xT s2) (N s2) = Inr (x_back r2)"
    and c2: "central A (lam s2) (alpha s2) (h r2) (x0 s2) (xT s2) (N s2) = Inr (x_cent r2)"
    and f2: "forward A (lam s2) (alpha s2) (h r2) (x0 s2) (N s2) = Inr (x_forw r2)"
    by (rule kernel_run [OF n2])
  have same: "lam s2 = lam s1" "alpha s2 = alpha s1" "T s2 = T s1" "x0 s2 = x0 s1"
    "xT s2 = xT s1" "N s2 = N s1"
    using assms by (simp_all add: inputs_eq_iff)
  have hh: "h r2 = h r1" using h1 h2 same by simp
  have tt: "t r2 = t r1" using t1 t2 same by simp
  have "Inr (x_back r2) = (Inr (x_back r1) :: error + 'a list)"
    using b1 b2 same hh by simp
  then have bb: "x_back r2 = x_back r1" by simp
  have "Inr (x_cent r2) = (Inr (x_cent r1) :: error + 'a list)"
    using c1 c2 same hh by simp
  then have cc: "x_cent r2 = x_cent r1" by simp
  have "Inr (x_forw r2) = (Inr (x_forw r1) :: error + 'a list)"
    using f1 f2 same hh by simp
  then have ff: "x_forw r2 = x_forw r1" by simp
  show ?thesis by (simp add: k1 k2 outputs_def tt bb cc ff)
qed

lemma kernel_rerun:
  assumes "kernel A s = Inr r"
  shows "inputs r = inputs s" and "kernel A r = Inr r"
proof -
  have "N s \<noteq> 0" using assms kernel_zero [of s A] by auto
  then have n: "1 \<le> N s" by simp
  obtain r' where k: "kernel A s = Inr r'"
    and i: "inputs r' = inputs s"
    and hh: "h r' = fl_div A (T s) (fl_of_int A (int (N s)))"
    and tt: "t r' = linspace A (fl_of_int A 0) (T s) (N s + 1)"
    and b: "backward A (lam s) (alpha s) (h r') (x0 s) (xT s) (N s) = Inr (x_back r')"
    and c: "central A (lam s) (alpha s) (h r') (x0 s) (xT s) (N s) = Inr (x_cent r')"
    and fw: "forward A (lam s) (alpha s) (h r') (x0 s) (N s) = Inr (x_forw r')"
    by (rule kernel_run [OF n])
  have eq: "r' = r" using k assms by simp
  show i': "inputs r = inputs s" using i eq by simp
  have same: "lam r = lam s" "alpha r = alpha s" "T r = T s" "x0 r = x0 s"
    "xT r = xT s" "N r = N s"
    using i' by (simp_all add: inputs_eq_iff)
  have nr: "1 \<le> N r" using n same by simp
  have hr: "fl_div A (T r) (fl_of_int A (int (N r))) = h r" using hh eq same by simp
  have tr: "linspace A (fl_of_int A 0) (T r) (N r + 1) = t r" using tt eq same by simp
  have br: "backward A (lam r) (alpha r) (fl_div A (T r) (fl_of_int A (int (N r)))) (x0 r) (xT r) (N r)
      = Inr (x_back r)"
    using b eq same hr by simp
  have cr: "central A (lam r) (alpha r) (fl_div A (T r) (fl_of_int A (int (N r)))) (x0 r) (xT r) (N r)
      = Inr (x_cent r)"
    using c eq same hr by simp
  have fr: "forward A (lam r) (alpha r) (fl_div A (T r) (fl_of_int A (int (N r)))) (x0 r) (N r)
      = Inr (x_forw r)"
    using fw eq same hr by simp
  have "kernel A r = Inr (r\<lparr>h := fl_div A (T r) (fl_of_int A (int (N r))),
      t := linspace A (fl_of_int A 0) (T r) (N r + 1),
      x_back := x_back r, x_cent := x_cent r, x_forw := x_forw r\<rparr>)"
    by (rule kernel_eq [OF nr br cr fr])
  then show "kernel A r = Inr r" unfolding hr tr by simp
qed

subsection \<open>A run of the central scheme on two intervals\<close>

lemma for_range_single: "for_range a (Suc a) body s = body a s"
  by (simp add: for_range_def err_bind_def split: sum.split)

lemma central_example:
  "central real_ops 0 2 (1 / 2) (1 / 4) 1 2 = Inr [1 / 4, 1 / 4, 5 / 16]"
proof -
  have two: "(2::nat) = Suc 1" by simp
  have init: "(zeros real_ops (2 + 1))[0 := 1 / 4, 2 := 1,
      1 := fl_mul real_ops (1 / 4) (fl_exp real_ops (fl_mul real_ops (fl_neg real_ops 0) (1 / 2)))]
      = [1 / 4, 1 / 4, 1]"
    by (simp add: zeros_def real_ops_def eval_nat_numeral)
  have "central real_ops 0 2 (1 / 2) (1 / 4) 1 2 =
      for_range 1 (Suc 1) (cent_body real_ops 0 2 (1 / 2)) [1 / 4, 1 / 4, 1]"
    using central_init [of 2 real_ops 0 2 "1 / 2" "1 / 4" 1] unfolding init by (simp only: two [symmetric])
  also have "\<dots> = cent_body real_ops 0 2 (1 / 2) 1 [1 / 4, 1 / 4, 1]"
    by (rule for_range_single)
  also have "\<dots> = Inr [1 / 4, 1 / 4, 5 / 16]"
    using cent_body_eq [of 1 "[1 / 4, 1 / 4, 1]" real_ops 0 2 "1 / 2"]
    by (simp add: real_ops_def f_def eval_nat_numeral)
  finally show ?thesis .
qed

text \<open>The seed and the recurrence determine the central trajectory.\<close>

lemma central_unique:
  assumes "1 \<le> n"
    and "central A L E H a b n = Inr xs"
    and "central A L E H a c n = Inr ys"
  shows "xs = ys"
proof (rule nth_equalityI)
  show len: "length xs = length ys"
    using central_props(1) [OF assms(1,2)] central_props(1) [OF assms(1,3)] by simp
  have all: "j \<le> n \<Longrightarrow> xs ! j = ys ! j" for j
  proof (induction j rule: less_induct)
    case (less j)
    consider "j = 0" | "j = 1" | "2 \<le> j" by linarith
    then show ?case
    proof cases
      case 1
      then show ?thesis
        using central_props(2) [OF assms(1,2)] central_props(2) [OF assms(1,3)] by simp
    next
      case 2
      then show ?thesis
        using central_props(3) [OF assms(1,2)] central_props(3) [OF assms(1,3)] by simp
    next
      case 3
      define i where "i = j - 1"
      have i: "1 \<le> i" "i < n" "j = i + 1" using 3 less.prems by (simp_all add: i_def)
      have p: "xs ! (i - Suc 0) = ys ! (i - Suc 0)" using less.IH [of "i - 1"] i by simp
      have q: "xs ! i = ys ! i" using less.IH [of i] i by simp
      show ?thesis
        using central_props(4) [OF assms(1,2) i(1,2)] central_props(4) [OF assms(1,3) i(1,2)]
        by (simp add: i(3) p q)
    qed
  qed
  fix j assume "j < length xs"
  then have "j \<le> n" using central_props(1) [OF assms(1,2)] by simp
  then show "xs ! j = ys ! j" by (rule all)
qed

section \<open>The claims\<close>

subsection \<open>Shape of the outputs\<close>

text \<open>
  Claim C5.  For every grid size \<open>N \<ge> 1\<close> the kernel returns, and the grid and each of
  the three trajectories (backward, central, forward) have exactly \<open>N + 1\<close> entries, so
  that trajectory and grid are aligned index for index.  This holds for every
  arithmetic.
\<close>

theorem kernel_lengths:
  assumes "1 \<le> N s"
  shows "\<exists>s'. kernel A s = Inr s' \<and>
    length (t s') = N s + 1 \<and> length (x_back s') = N s + 1 \<and>
    length (x_cent s') = N s + 1 \<and> length (x_forw s') = N s + 1"
proof -
  obtain s' where k: "kernel A s = Inr s'"
    and tt: "t s' = linspace A (fl_of_int A 0) (T s) (N s + 1)"
    and b: "backward A (lam s) (alpha s) (h s') (x0 s) (xT s) (N s) = Inr (x_back s')"
    and c: "central A (lam s) (alpha s) (h s') (x0 s) (xT s) (N s) = Inr (x_cent s')"
    and fw: "forward A (lam s) (alpha s) (h s') (x0 s) (N s) = Inr (x_forw s')"
    by (rule kernel_run [OF assms])
  have "length (t s') = N s + 1" by (simp add: tt length_linspace)
  moreover have "length (x_back s') = N s + 1" by (rule backward_props(1) [OF assms b])
  moreover have "length (x_cent s') = N s + 1" by (rule central_props(1) [OF assms c])
  moreover have "length (x_forw s') = N s + 1" by (rule forward_props(1) [OF fw])
  ultimately show ?thesis using k by (intro exI [of _ s'] conjI)
qed

theorem kernel_lengths_witness:
  "1 \<le> N (start_env real_ops 7 3 1 (1 / 2) 0 200) \<and>
   (\<exists>s'. kernel real_ops (start_env real_ops 7 3 1 (1 / 2) 0 200) = Inr s' \<and>
      length (t s') = 201 \<and> length (x_back s') = 201 \<and>
      length (x_cent s') = 201 \<and> length (x_forw s') = 201)"
proof -
  have n: "1 \<le> N (start_env real_ops 7 3 1 (1 / 2) 0 200)"
    by (simp add: start_env_def)
  have m: "N (start_env real_ops 7 3 1 (1 / 2) 0 200) + 1 = 201"
    by (simp add: start_env_def)
  show ?thesis
    using n kernel_lengths [OF n, of real_ops] unfolding m by (intro conjI)
qed

text \<open>
  For every \<open>N \<ge> 1\<close> the grid has \<open>N + 1\<close> entries and its last entry is \<open>T\<close> itself:
  \<open>np.linspace\<close> stores the end point, it does not compute it.  This holds for every
  arithmetic.
\<close>

theorem kernel_grid_endpoint:
  assumes "1 \<le> N s"
  shows "\<exists>s'. kernel A s = Inr s' \<and> length (t s') = N s + 1 \<and> t s' ! N s = T s"
proof -
  obtain s' where k: "kernel A s = Inr s'"
    and tt: "t s' = linspace A (fl_of_int A 0) (T s) (N s + 1)"
    by (rule kernel_run [OF assms])
  have len: "length (t s') = N s + 1" by (simp add: tt length_linspace)
  have "1 < N s + 1" using assms by simp
  then have "linspace A (fl_of_int A 0) (T s) (N s + 1) ! (N s + 1 - 1) = T s"
    by (rule linspace_last)
  then have lst: "t s' ! N s = T s" by (simp add: tt)
  show ?thesis by (rule exI [of _ s']) (intro conjI k len lst)
qed

theorem kernel_grid_endpoint_witness:
  "1 \<le> N (start_env real_ops 7 3 1 (1 / 2) 0 200) \<and>
   (\<exists>s'. kernel real_ops (start_env real_ops 7 3 1 (1 / 2) 0 200) = Inr s' \<and>
      length (t s') = 201 \<and> t s' ! 200 = 1)"
proof -
  let ?e = "start_env real_ops 7 3 1 (1 / 2) 0 200"
  have n: "1 \<le> N ?e" by (simp add: start_env_def)
  have v: "N ?e = 200" "T ?e = 1" by (simp_all add: start_env_def)
  have m: "(200::nat) + 1 = 201" by simp
  show ?thesis
    using n kernel_grid_endpoint [OF n, of real_ops] unfolding v m by (intro conjI)
qed

subsection \<open>Backward scheme\<close>

text \<open>
  Claim C2.  For every \<open>N \<ge> 1\<close> the kernel returns, and each interior entry
  \<open>x_back[i]\<close>, \<open>1 \<le> i < N\<close>, of the final array is the 15-fold iterate of the update
  \<open>y \<mapsto> (x_back[i - 1] + h * y**alpha) / (1 + h * lam)\<close> started at \<open>x_back[i - 1]\<close>,
  the final value of the entry before it, with \<open>h = T / N\<close>; the chain starts at
  \<open>x_back[0] = x0\<close>.  No test on the iterates changes the value.
\<close>

theorem kernel_backward_fixed_point:
  assumes "1 \<le> N s"
  shows "\<exists>s'. kernel A s = Inr s' \<and>
    h s' = fl_div A (T s) (fl_of_int A (int (N s))) \<and>
    x_back s' ! 0 = x0 s \<and>
    (\<forall>i. 1 \<le> i \<and> i < N s \<longrightarrow>
       x_back s' ! i =
         ((\<lambda>y. fl_div A (fl_add A (x_back s' ! (i - 1)) (fl_mul A (h s') (fl_pow A y (alpha s))))
                  (fl_add A (fl_of_int A 1) (fl_mul A (h s') (lam s)))) ^^ 15)
           (x_back s' ! (i - 1)))"
proof -
  obtain s' where k: "kernel A s = Inr s'"
    and hh: "h s' = fl_div A (T s) (fl_of_int A (int (N s)))"
    and b: "backward A (lam s) (alpha s) (h s') (x0 s) (xT s) (N s) = Inr (x_back s')"
    by (rule kernel_run [OF assms])
  have first: "x_back s' ! 0 = x0 s" by (rule backward_props(2) [OF assms b])
  have inner: "\<forall>i. 1 \<le> i \<and> i < N s \<longrightarrow>
       x_back s' ! i =
         ((\<lambda>y. fl_div A (fl_add A (x_back s' ! (i - 1)) (fl_mul A (h s') (fl_pow A y (alpha s))))
                  (fl_add A (fl_of_int A 1) (fl_mul A (h s') (lam s)))) ^^ 15)
           (x_back s' ! (i - 1))"
    using backward_props(4) [OF assms b] by (intro allI impI) (elim conjE)
  show ?thesis using k hh first inner by (intro exI [of _ s'] conjI)
qed

theorem kernel_backward_fixed_point_witness:
  "1 \<le> N (start_env real_ops 1 2 3 1 5 3) \<and>
   (\<exists>s'. kernel real_ops (start_env real_ops 1 2 3 1 5 3) = Inr s' \<and>
      x_back s' ! 0 = 1 \<and> x_back s' ! 1 = 1 \<and> x_back s' ! 2 = 1)"
proof -
  let ?e = "start_env real_ops 1 2 3 1 5 3"
  have n: "1 \<le> N ?e" by (simp add: start_env_def)
  obtain s' where k: "kernel real_ops ?e = Inr s'"
    and hh: "h s' = fl_div real_ops (T ?e) (fl_of_int real_ops (int (N ?e)))"
    and first: "x_back s' ! 0 = x0 ?e"
    and inner: "\<forall>i. 1 \<le> i \<and> i < N ?e \<longrightarrow>
       x_back s' ! i =
         ((\<lambda>y. fl_div real_ops (fl_add real_ops (x_back s' ! (i - 1))
                    (fl_mul real_ops (h s') (fl_pow real_ops y (alpha ?e))))
                  (fl_add real_ops (fl_of_int real_ops 1) (fl_mul real_ops (h s') (lam ?e)))) ^^ 15)
           (x_back s' ! (i - 1))"
    using kernel_backward_fixed_point [OF n, of real_ops] by (elim exE conjE)
  have h1: "h s' = 1" using hh by (simp add: start_env_def real_ops_def)
  have v0: "x_back s' ! 0 = 1" using first by (simp add: start_env_def)
  have "x_back s' ! 1 = ((\<lambda>y. (1 + 1 * y powr 2) / (1 + 1 * 1)) ^^ 15) (1::real)"
    using inner [rule_format, of 1] by (simp add: start_env_def real_ops_def h1 v0)
  also have "\<dots> = 1" by (rule funpow_fixed) simp
  finally have v1: "x_back s' ! 1 = 1" .
  have v1': "x_back s' ! Suc 0 = 1" using v1 by simp
  have "x_back s' ! 2 = ((\<lambda>y. (1 + 1 * y powr 2) / (1 + 1 * 1)) ^^ 15) (1::real)"
    using inner [rule_format, of 2] by (simp add: start_env_def real_ops_def h1 v1')
  also have "\<dots> = 1" by (rule funpow_fixed) simp
  finally have v2: "x_back s' ! 2 = 1" .
  show ?thesis using n k v0 v1 v2 by (intro conjI exI [of _ s'])
qed

text \<open>
  The backward trajectory keeps both boundary values: for every \<open>N \<ge> 1\<close> the kernel
  returns with \<open>x_back[0] = x0\<close> and \<open>x_back[N] = xT\<close>, since its loop writes the
  indices \<open>1 .. N - 1\<close> only.  (This is the part of claim C1 on the backward scheme.)
\<close>

theorem kernel_backward_endpoints:
  assumes "1 \<le> N s"
  shows "\<exists>s'. kernel A s = Inr s' \<and> x_back s' ! 0 = x0 s \<and> x_back s' ! N s = xT s"
proof -
  obtain s' where k: "kernel A s = Inr s'"
    and b: "backward A (lam s) (alpha s) (h s') (x0 s) (xT s) (N s) = Inr (x_back s')"
    by (rule kernel_run [OF assms])
  show ?thesis
    by (rule exI [of _ s'])
      (intro conjI k backward_props(2) [OF assms b] backward_props(3) [OF assms b])
qed

theorem kernel_backward_endpoints_witness:
  "1 \<le> N (start_env real_ops 7 3 1 (1 / 2) 0 200) \<and>
   (\<exists>s'. kernel real_ops (start_env real_ops 7 3 1 (1 / 2) 0 200) = Inr s' \<and>
      x_back s' ! 0 = 1 / 2 \<and> x_back s' ! 200 = 0)"
proof -
  let ?e = "start_env real_ops 7 3 1 (1 / 2) 0 200"
  have n: "1 \<le> N ?e" by (simp add: start_env_def)
  have v: "x0 ?e = 1 / 2" "xT ?e = 0" "N ?e = 200" by (simp_all add: start_env_def)
  show ?thesis
    using n kernel_backward_endpoints [OF n, of real_ops] unfolding v by (intro conjI)
qed

subsection \<open>Central scheme\<close>

text \<open>
  Claim C3.  For every \<open>N \<ge> 1\<close> the kernel returns, the central trajectory has
  \<open>x_cent[0] = x0\<close> and \<open>x_cent[1] = x0 * exp(-lam * h)\<close> with \<open>h = T / N\<close> (the seed
  is assigned, not computed by the recurrence), and for \<open>1 \<le> i < N\<close> the final array
  satisfies \<open>x_cent[i + 1] = x_cent[i - 1] + 2 * h * f(x_cent[i])\<close>, where
  \<open>f(x) = -lam * x + x**alpha\<close>.  The right-hand side is written out in the operations
  of the arithmetic, in the recurrence and as the value of \<open>f\<close> at every argument.
\<close>

theorem kernel_central_recurrence:
  assumes "1 \<le> N s"
  shows "\<exists>s'. kernel A s = Inr s' \<and>
    h s' = fl_div A (T s) (fl_of_int A (int (N s))) \<and>
    x_cent s' ! 0 = x0 s \<and>
    x_cent s' ! 1 = fl_mul A (x0 s) (fl_exp A (fl_mul A (fl_neg A (lam s)) (h s'))) \<and>
    (\<forall>x. f A (lam s) (alpha s) x =
       fl_add A (fl_mul A (fl_neg A (lam s)) x) (fl_pow A x (alpha s))) \<and>
    (\<forall>i. 1 \<le> i \<and> i < N s \<longrightarrow>
       x_cent s' ! (i + 1) =
         fl_add A (x_cent s' ! (i - 1))
           (fl_mul A (fl_mul A (fl_of_int A 2) (h s'))
              (fl_add A (fl_mul A (fl_neg A (lam s)) (x_cent s' ! i))
                 (fl_pow A (x_cent s' ! i) (alpha s)))))"
proof -
  obtain s' where k: "kernel A s = Inr s'"
    and hh: "h s' = fl_div A (T s) (fl_of_int A (int (N s)))"
    and c: "central A (lam s) (alpha s) (h s') (x0 s) (xT s) (N s) = Inr (x_cent s')"
    by (rule kernel_run [OF assms])
  have first: "x_cent s' ! 0 = x0 s" by (rule central_props(2) [OF assms c])
  have seed: "x_cent s' ! 1 = fl_mul A (x0 s) (fl_exp A (fl_mul A (fl_neg A (lam s)) (h s')))"
    by (rule central_props(3) [OF assms c])
  have rhs: "\<forall>x. f A (lam s) (alpha s) x =
       fl_add A (fl_mul A (fl_neg A (lam s)) x) (fl_pow A x (alpha s))"
    by (simp add: f_def)
  have rec: "\<forall>i. 1 \<le> i \<and> i < N s \<longrightarrow>
       x_cent s' ! (i + 1) =
         fl_add A (x_cent s' ! (i - 1))
           (fl_mul A (fl_mul A (fl_of_int A 2) (h s'))
              (fl_add A (fl_mul A (fl_neg A (lam s)) (x_cent s' ! i))
                 (fl_pow A (x_cent s' ! i) (alpha s))))"
  proof (intro allI impI)
    fix i assume i: "1 \<le> i \<and> i < N s"
    then have "x_cent s' ! (i + 1) =
        fl_add A (x_cent s' ! (i - 1))
          (fl_mul A (fl_mul A (fl_of_int A 2) (h s')) (f A (lam s) (alpha s) (x_cent s' ! i)))"
      using central_props(4) [OF assms c, of i] by (elim conjE)
    then show "x_cent s' ! (i + 1) =
         fl_add A (x_cent s' ! (i - 1))
           (fl_mul A (fl_mul A (fl_of_int A 2) (h s'))
              (fl_add A (fl_mul A (fl_neg A (lam s)) (x_cent s' ! i))
                 (fl_pow A (x_cent s' ! i) (alpha s))))"
      unfolding f_def .
  qed
  show ?thesis by (rule exI [of _ s']) (intro conjI k hh first seed rhs rec)
qed

theorem kernel_central_recurrence_witness:
  "1 \<le> N (start_env real_ops 1 3 2 1 5 2) \<and>
   (\<exists>s'. kernel real_ops (start_env real_ops 1 3 2 1 5 2) = Inr s' \<and>
      h s' = 1 \<and> x_cent s' ! 0 = 1 \<and> x_cent s' ! 1 = exp (- 1) \<and>
      f real_ops 1 3 (1 / 2) = - (3 / 8) \<and>
      x_cent s' ! 2 = 1 + 2 * (- exp (- 1) + exp (- 1) powr 3))"
proof -
  let ?e = "start_env real_ops 1 3 2 1 5 2"
  have n: "1 \<le> N ?e" by (simp add: start_env_def)
  obtain s' where k: "kernel real_ops ?e = Inr s'"
    and hh: "h s' = fl_div real_ops (T ?e) (fl_of_int real_ops (int (N ?e)))"
    and first: "x_cent s' ! 0 = x0 ?e"
    and seed: "x_cent s' ! 1 =
      fl_mul real_ops (x0 ?e) (fl_exp real_ops (fl_mul real_ops (fl_neg real_ops (lam ?e)) (h s')))"
    and rhs: "\<forall>x. f real_ops (lam ?e) (alpha ?e) x =
       fl_add real_ops (fl_mul real_ops (fl_neg real_ops (lam ?e)) x) (fl_pow real_ops x (alpha ?e))"
    and rec: "\<forall>i. 1 \<le> i \<and> i < N ?e \<longrightarrow>
       x_cent s' ! (i + 1) =
         fl_add real_ops (x_cent s' ! (i - 1))
           (fl_mul real_ops (fl_mul real_ops (fl_of_int real_ops 2) (h s'))
              (fl_add real_ops (fl_mul real_ops (fl_neg real_ops (lam ?e)) (x_cent s' ! i))
                 (fl_pow real_ops (x_cent s' ! i) (alpha ?e))))"
    using kernel_central_recurrence [OF n, of real_ops] by (elim exE conjE)
  have h1: "h s' = 1" using hh by (simp add: start_env_def real_ops_def)
  have v0: "x_cent s' ! 0 = 1" using first by (simp add: start_env_def)
  have v1: "x_cent s' ! Suc 0 = exp (- 1)"
    using seed by (simp add: start_env_def real_ops_def h1)
  have v1': "x_cent s' ! 1 = exp (- 1)" using v1 by simp
  have "f real_ops 1 3 (1 / 2) =
      fl_add real_ops (fl_mul real_ops (fl_neg real_ops 1) (1 / 2)) (fl_pow real_ops (1 / 2) 3)"
    using rhs [rule_format, of "1 / 2"] by (simp add: start_env_def)
  also have "\<dots> = - (3 / 8)"
    by (simp add: real_ops_def eval_nat_numeral)
  finally have fv: "f real_ops 1 3 (1 / 2) = - (3 / 8)" .
  have "x_cent s' ! (1 + 1) =
      fl_add real_ops (x_cent s' ! (1 - 1))
           (fl_mul real_ops (fl_mul real_ops (fl_of_int real_ops 2) (h s'))
              (fl_add real_ops (fl_mul real_ops (fl_neg real_ops (lam ?e)) (x_cent s' ! 1))
                 (fl_pow real_ops (x_cent s' ! 1) (alpha ?e))))"
    using rec [rule_format, of 1] by (simp add: start_env_def)
  then have v2: "x_cent s' ! 2 = 1 + 2 * (- exp (- 1) + exp (- 1) powr 3)"
    unfolding v1' h1 by (simp add: start_env_def real_ops_def v0 numeral_2_eq_2)
  have "\<exists>s'. kernel real_ops ?e = Inr s' \<and>
      h s' = 1 \<and> x_cent s' ! 0 = 1 \<and> x_cent s' ! 1 = exp (- 1) \<and>
      f real_ops 1 3 (1 / 2) = - (3 / 8) \<and>
      x_cent s' ! 2 = 1 + 2 * (- exp (- 1) + exp (- 1) powr 3)"
    by (rule exI [of _ s']) (intro conjI k h1 v0 v1' fv v2)
  then show ?thesis using n by (intro conjI)
qed

text \<open>
  Claim C10.  When \<open>N = 1\<close> the kernel returns and the central trajectory is
  \<open>[x0, x0 * exp(-lam * h)]\<close>: its final entry \<open>x_cent[N] = x_cent[1]\<close> is the seed and
  not \<open>xT\<close>.  The seed is stored at index 1 after \<open>xT\<close> was stored at index \<open>-1\<close>, the
  same element, and the loop over \<open>range(1, 1)\<close> has no iteration.  Whenever the seed
  differs from \<open>xT\<close>, so does the final entry.
\<close>

theorem kernel_central_single_interval:
  assumes "N s = 1"
  shows "\<exists>s'. kernel A s = Inr s' \<and>
    h s' = fl_div A (T s) (fl_of_int A (int (N s))) \<and>
    x_cent s' = [x0 s, fl_mul A (x0 s) (fl_exp A (fl_mul A (fl_neg A (lam s)) (h s')))] \<and>
    x_cent s' ! N s = fl_mul A (x0 s) (fl_exp A (fl_mul A (fl_neg A (lam s)) (h s'))) \<and>
    (xT s \<noteq> fl_mul A (x0 s) (fl_exp A (fl_mul A (fl_neg A (lam s)) (h s'))) \<longrightarrow>
       x_cent s' ! N s \<noteq> xT s)"
proof -
  have n: "1 \<le> N s" using assms by simp
  obtain s' where k: "kernel A s = Inr s'"
    and hh: "h s' = fl_div A (T s) (fl_of_int A (int (N s)))"
    and c: "central A (lam s) (alpha s) (h s') (x0 s) (xT s) (N s) = Inr (x_cent s')"
    by (rule kernel_run [OF n])
  let ?seed = "fl_mul A (x0 s) (fl_exp A (fl_mul A (fl_neg A (lam s)) (h s')))"
  have "Inr (x_cent s') = (Inr [x0 s, ?seed] :: error + 'a list)"
    using c central_one [of A "lam s" "alpha s" "h s'" "x0 s" "xT s"] assms by simp
  then have xs: "x_cent s' = [x0 s, ?seed]" by simp
  have last: "x_cent s' ! N s = ?seed" using xs assms by simp
  have neq: "xT s \<noteq> ?seed \<longrightarrow> x_cent s' ! N s \<noteq> xT s" using last by simp
  show ?thesis using k hh xs last neq by (intro exI [of _ s'] conjI)
qed

theorem kernel_central_single_interval_witness:
  "N (start_env real_ops 0 2 (1 / 2) (1 / 4) 1 1) = 1 \<and>
   (\<exists>s'. kernel real_ops (start_env real_ops 0 2 (1 / 2) (1 / 4) 1 1) = Inr s' \<and>
      x_cent s' = [1 / 4, 1 / 4] \<and> x_cent s' ! 1 \<noteq> xT (start_env real_ops 0 2 (1 / 2) (1 / 4) 1 1))"
proof -
  let ?e = "start_env real_ops 0 2 (1 / 2) (1 / 4) 1 1"
  have n: "N ?e = 1" by (simp add: start_env_def)
  obtain s' where k: "kernel real_ops ?e = Inr s'"
    and xs: "x_cent s' = [x0 ?e,
        fl_mul real_ops (x0 ?e) (fl_exp real_ops (fl_mul real_ops (fl_neg real_ops (lam ?e)) (h s')))]"
    using kernel_central_single_interval [OF n, of real_ops] by (elim exE conjE)
  have v: "x_cent s' = [1 / 4, 1 / 4]"
    using xs by (simp add: start_env_def real_ops_def)
  have ne: "x_cent s' ! 1 \<noteq> xT ?e" by (simp add: v start_env_def)
  have "\<exists>s'. kernel real_ops ?e = Inr s' \<and> x_cent s' = [1 / 4, 1 / 4] \<and> x_cent s' ! 1 \<noteq> xT ?e"
    by (rule exI [of _ s']) (intro conjI k v ne)
  then show ?thesis using n by (intro conjI)
qed

text \<open>
  Claim C1 asks for \<open>x_cent[N] = xT\<close>.  The script stores \<open>xT\<close> in \<open>x_cent[-1]\<close> before
  the loop, and the last iteration, \<open>i = N - 1\<close>, stores the recurrence value in
  \<open>x_cent[i + 1] = x_cent[N]\<close>.  With \<open>lam = 0\<close>, \<open>alpha = 2\<close>, \<open>T = 1\<close>, \<open>x0 = 0.25\<close>,
  \<open>xT = 1\<close>, \<open>N = 2\<close> the kernel returns \<open>x_cent = [0.25, 0.25, 0.3125]\<close>, whose last
  entry is not \<open>xT\<close>.  (All values of this run are dyadic and exact in binary64.)
\<close>

theorem central_right_endpoint_overwritten:
  "\<exists>s'. kernel real_ops (start_env real_ops 0 2 1 (1 / 4) 1 2) = Inr s' \<and>
     x_cent s' = [1 / 4, 1 / 4, 5 / 16] \<and>
     x_cent s' ! N (start_env real_ops 0 2 1 (1 / 4) 1 2) \<noteq> xT (start_env real_ops 0 2 1 (1 / 4) 1 2)"
proof -
  let ?e = "start_env real_ops 0 2 1 (1 / 4) 1 2"
  have n: "1 \<le> N ?e" by (simp add: start_env_def)
  obtain s' where k: "kernel real_ops ?e = Inr s'"
    and hh: "h s' = fl_div real_ops (T ?e) (fl_of_int real_ops (int (N ?e)))"
    and c: "central real_ops (lam ?e) (alpha ?e) (h s') (x0 ?e) (xT ?e) (N ?e) = Inr (x_cent s')"
    by (rule kernel_run [OF n])
  have h1: "h s' = 1 / 2" using hh by (simp add: start_env_def real_ops_def)
  have "Inr (x_cent s') = (Inr [1 / 4, 1 / 4, 5 / 16] :: error + real list)"
    using c central_example by (simp add: start_env_def h1)
  then have v: "x_cent s' = [1 / 4, 1 / 4, 5 / 16]" by simp
  have ne: "x_cent s' ! N ?e \<noteq> xT ?e" by (simp add: v start_env_def)
  show ?thesis by (rule exI [of _ s']) (intro conjI k v ne)
qed

text \<open>
  The central trajectory does not depend on \<open>xT\<close> at all.  For every \<open>N \<ge> 1\<close> the
  kernel returns with \<open>x_cent[0] = x0\<close>; for \<open>N \<ge> 2\<close> its last entry is the
  recurrence value \<open>x_cent[N - 2] + 2 * h * f(x_cent[N - 1])\<close>; and a run from any
  environment with the same \<open>lam\<close>, \<open>alpha\<close>, \<open>T\<close>, \<open>x0\<close>, \<open>N\<close>, whatever its \<open>xT\<close>,
  returns the same central trajectory.
\<close>

theorem kernel_central_ignores_xT:
  assumes "1 \<le> N s"
  shows "\<exists>s'. kernel A s = Inr s' \<and>
    h s' = fl_div A (T s) (fl_of_int A (int (N s))) \<and>
    x_cent s' ! 0 = x0 s \<and>
    (2 \<le> N s \<longrightarrow>
       x_cent s' ! N s =
         fl_add A (x_cent s' ! (N s - 2))
           (fl_mul A (fl_mul A (fl_of_int A 2) (h s'))
              (fl_add A (fl_mul A (fl_neg A (lam s)) (x_cent s' ! (N s - 1)))
                 (fl_pow A (x_cent s' ! (N s - 1)) (alpha s))))) \<and>
    (\<forall>s2. lam s2 = lam s \<and> alpha s2 = alpha s \<and> T s2 = T s \<and> x0 s2 = x0 s \<and> N s2 = N s \<longrightarrow>
       (\<exists>r. kernel A s2 = Inr r \<and> x_cent r = x_cent s'))"
proof -
  obtain s' where k: "kernel A s = Inr s'"
    and hh: "h s' = fl_div A (T s) (fl_of_int A (int (N s)))"
    and c: "central A (lam s) (alpha s) (h s') (x0 s) (xT s) (N s) = Inr (x_cent s')"
    by (rule kernel_run [OF assms])
  have first: "x_cent s' ! 0 = x0 s" by (rule central_props(2) [OF assms c])
  have last: "2 \<le> N s \<longrightarrow>
       x_cent s' ! N s =
         fl_add A (x_cent s' ! (N s - 2))
           (fl_mul A (fl_mul A (fl_of_int A 2) (h s'))
              (fl_add A (fl_mul A (fl_neg A (lam s)) (x_cent s' ! (N s - 1)))
                 (fl_pow A (x_cent s' ! (N s - 1)) (alpha s))))"
  proof
    assume two: "2 \<le> N s"
    have i: "1 \<le> N s - 1" "N s - 1 < N s" using two by simp_all
    have e1: "N s - 1 + 1 = N s" and e2: "N s - 1 - 1 = N s - 2" using two by simp_all
    show "x_cent s' ! N s =
         fl_add A (x_cent s' ! (N s - 2))
           (fl_mul A (fl_mul A (fl_of_int A 2) (h s'))
              (fl_add A (fl_mul A (fl_neg A (lam s)) (x_cent s' ! (N s - 1)))
                 (fl_pow A (x_cent s' ! (N s - 1)) (alpha s))))"
      using central_props(4) [OF assms c i] unfolding e1 e2 f_def .
  qed
  have indep: "\<forall>s2. lam s2 = lam s \<and> alpha s2 = alpha s \<and> T s2 = T s \<and> x0 s2 = x0 s \<and> N s2 = N s \<longrightarrow>
       (\<exists>r. kernel A s2 = Inr r \<and> x_cent r = x_cent s')"
  proof (intro allI impI)
    fix s2 :: "'a env"
    assume same: "lam s2 = lam s \<and> alpha s2 = alpha s \<and> T s2 = T s \<and> x0 s2 = x0 s \<and> N s2 = N s"
    then have n2: "1 \<le> N s2" using assms by simp
    obtain r where k2: "kernel A s2 = Inr r"
      and h2: "h r = fl_div A (T s2) (fl_of_int A (int (N s2)))"
      and c2: "central A (lam s2) (alpha s2) (h r) (x0 s2) (xT s2) (N s2) = Inr (x_cent r)"
      by (rule kernel_run [OF n2])
    have "h r = h s'" using h2 hh same by simp
    then have c2': "central A (lam s) (alpha s) (h s') (x0 s) (xT s2) (N s) = Inr (x_cent r)"
      using c2 same by simp
    have "x_cent r = x_cent s'" by (rule central_unique [OF assms c2' c])
    then show "\<exists>r. kernel A s2 = Inr r \<and> x_cent r = x_cent s'"
      using k2 by (intro exI [of _ r] conjI)
  qed
  show ?thesis by (rule exI [of _ s']) (intro conjI k hh first last indep)
qed

theorem kernel_central_ignores_xT_witness:
  "1 \<le> N (start_env real_ops 1 3 2 1 5 2) \<and>
   (\<exists>s'. kernel real_ops (start_env real_ops 1 3 2 1 5 2) = Inr s' \<and>
      x_cent s' ! 0 = 1 \<and>
      x_cent s' ! 2 = 1 + 2 * (- (x_cent s' ! 1) + (x_cent s' ! 1) powr 3) \<and>
      (\<exists>r. kernel real_ops (start_env real_ops 1 3 2 1 7 2) = Inr r \<and> x_cent r = x_cent s'))"
proof -
  let ?e = "start_env real_ops 1 3 2 1 5 2"
  let ?e2 = "start_env real_ops 1 3 2 1 7 2"
  have n: "1 \<le> N ?e" by (simp add: start_env_def)
  have n2: "2 \<le> N ?e" by (simp add: start_env_def)
  obtain s' where k: "kernel real_ops ?e = Inr s'"
    and hh: "h s' = fl_div real_ops (T ?e) (fl_of_int real_ops (int (N ?e)))"
    and first: "x_cent s' ! 0 = x0 ?e"
    and last: "2 \<le> N ?e \<longrightarrow>
       x_cent s' ! N ?e =
         fl_add real_ops (x_cent s' ! (N ?e - 2))
           (fl_mul real_ops (fl_mul real_ops (fl_of_int real_ops 2) (h s'))
              (fl_add real_ops (fl_mul real_ops (fl_neg real_ops (lam ?e)) (x_cent s' ! (N ?e - 1)))
                 (fl_pow real_ops (x_cent s' ! (N ?e - 1)) (alpha ?e))))"
    and indep: "\<forall>s2. lam s2 = lam ?e \<and> alpha s2 = alpha ?e \<and> T s2 = T ?e \<and> x0 s2 = x0 ?e \<and>
        N s2 = N ?e \<longrightarrow> (\<exists>r. kernel real_ops s2 = Inr r \<and> x_cent r = x_cent s')"
    using kernel_central_ignores_xT [OF n, of real_ops] by (elim exE conjE)
  have h1: "h s' = 1" using hh by (simp add: start_env_def real_ops_def)
  have v0: "x_cent s' ! 0 = 1" using first by (simp add: start_env_def)
  have ev: "N ?e = 2" "lam ?e = 1" "alpha ?e = 3"
    by (simp_all add: start_env_def)
  have ar: "(2::nat) - 2 = 0" "(2::nat) - 1 = 1" by simp_all
  have "x_cent s' ! 2 =
         fl_add real_ops (x_cent s' ! 0)
           (fl_mul real_ops (fl_mul real_ops (fl_of_int real_ops 2) (h s'))
              (fl_add real_ops (fl_mul real_ops (fl_neg real_ops 1) (x_cent s' ! 1))
                 (fl_pow real_ops (x_cent s' ! 1) 3)))"
    using last [rule_format, OF n2] unfolding ev ar .
  then have v2: "x_cent s' ! 2 = 1 + 2 * (- (x_cent s' ! 1) + (x_cent s' ! 1) powr 3)"
    unfolding h1 v0 by (simp add: real_ops_def)
  have other: "\<exists>r. kernel real_ops ?e2 = Inr r \<and> x_cent r = x_cent s'"
    using indep [rule_format, of ?e2] by (simp add: start_env_def)
  have "\<exists>s'. kernel real_ops ?e = Inr s' \<and> x_cent s' ! 0 = 1 \<and>
      x_cent s' ! 2 = 1 + 2 * (- (x_cent s' ! 1) + (x_cent s' ! 1) powr 3) \<and>
      (\<exists>r. kernel real_ops ?e2 = Inr r \<and> x_cent r = x_cent s')"
    by (rule exI [of _ s']) (intro conjI k v0 v2 other)
  then show ?thesis using n by (intro conjI)
qed

subsection \<open>Forward scheme\<close>

text \<open>
  Claim C4.  For every \<open>N \<ge> 1\<close> the kernel returns, the forward trajectory has
  \<open>x_forw[0] = x0\<close> and \<open>x_forw[i + 1] = x_forw[i] + h * f(x_forw[i])\<close> for
  \<open>0 \<le> i < N\<close> with \<open>h = T / N\<close> and \<open>f(x) = -lam * x + x**alpha\<close> (written out in
  the operations of the arithmetic, in the recurrence and as the value of \<open>f\<close> at
  every argument), and it is a function of \<open>lam\<close>, \<open>alpha\<close>, \<open>T\<close>, \<open>x0\<close>, \<open>N\<close> alone:
  a run from any environment with the same five values, whatever its \<open>xT\<close>, returns
  the same forward trajectory.
\<close>

theorem kernel_forward_march:
  assumes "1 \<le> N s"
  shows "\<exists>s'. kernel A s = Inr s' \<and>
    h s' = fl_div A (T s) (fl_of_int A (int (N s))) \<and>
    x_forw s' ! 0 = x0 s \<and>
    (\<forall>x. f A (lam s) (alpha s) x =
       fl_add A (fl_mul A (fl_neg A (lam s)) x) (fl_pow A x (alpha s))) \<and>
    (\<forall>i. i < N s \<longrightarrow>
       x_forw s' ! (i + 1) =
         fl_add A (x_forw s' ! i)
           (fl_mul A (h s')
              (fl_add A (fl_mul A (fl_neg A (lam s)) (x_forw s' ! i))
                 (fl_pow A (x_forw s' ! i) (alpha s))))) \<and>
    (\<forall>s2. lam s2 = lam s \<and> alpha s2 = alpha s \<and> T s2 = T s \<and> x0 s2 = x0 s \<and> N s2 = N s \<longrightarrow>
       (\<exists>r. kernel A s2 = Inr r \<and> x_forw r = x_forw s'))"
proof -
  obtain s' where k: "kernel A s = Inr s'"
    and hh: "h s' = fl_div A (T s) (fl_of_int A (int (N s)))"
    and fw: "forward A (lam s) (alpha s) (h s') (x0 s) (N s) = Inr (x_forw s')"
    by (rule kernel_run [OF assms])
  have first: "x_forw s' ! 0 = x0 s" by (rule forward_props(2) [OF fw])
  have rhs: "\<forall>x. f A (lam s) (alpha s) x =
       fl_add A (fl_mul A (fl_neg A (lam s)) x) (fl_pow A x (alpha s))"
    by (simp add: f_def)
  have rec: "\<forall>i. i < N s \<longrightarrow>
       x_forw s' ! (i + 1) =
         fl_add A (x_forw s' ! i)
           (fl_mul A (h s')
              (fl_add A (fl_mul A (fl_neg A (lam s)) (x_forw s' ! i))
                 (fl_pow A (x_forw s' ! i) (alpha s))))"
  proof (intro allI impI)
    fix i assume "i < N s"
    then have "x_forw s' ! (i + 1) =
        fl_add A (x_forw s' ! i) (fl_mul A (h s') (f A (lam s) (alpha s) (x_forw s' ! i)))"
      by (rule forward_props(3) [OF fw])
    then show "x_forw s' ! (i + 1) =
         fl_add A (x_forw s' ! i)
           (fl_mul A (h s')
              (fl_add A (fl_mul A (fl_neg A (lam s)) (x_forw s' ! i))
                 (fl_pow A (x_forw s' ! i) (alpha s))))"
      unfolding f_def .
  qed
  have indep: "\<forall>s2. lam s2 = lam s \<and> alpha s2 = alpha s \<and> T s2 = T s \<and> x0 s2 = x0 s \<and> N s2 = N s \<longrightarrow>
       (\<exists>r. kernel A s2 = Inr r \<and> x_forw r = x_forw s')"
  proof (intro allI impI)
    fix s2 :: "'a env"
    assume same: "lam s2 = lam s \<and> alpha s2 = alpha s \<and> T s2 = T s \<and> x0 s2 = x0 s \<and> N s2 = N s"
    then have n2: "1 \<le> N s2" using assms by simp
    obtain r where k2: "kernel A s2 = Inr r"
      and h2: "h r = fl_div A (T s2) (fl_of_int A (int (N s2)))"
      and fw2: "forward A (lam s2) (alpha s2) (h r) (x0 s2) (N s2) = Inr (x_forw r)"
      by (rule kernel_run [OF n2])
    have "h r = h s'" using h2 hh same by simp
    then have "Inr (x_forw r) = (Inr (x_forw s') :: error + 'a list)"
      using fw fw2 same by simp
    then have "x_forw r = x_forw s'" by simp
    then show "\<exists>r. kernel A s2 = Inr r \<and> x_forw r = x_forw s'"
      using k2 by (intro exI [of _ r] conjI)
  qed
  show ?thesis by (rule exI [of _ s']) (intro conjI k hh first rhs rec indep)
qed

theorem kernel_forward_march_witness:
  "1 \<le> N (start_env real_ops 1 3 (3 / 2) (1 / 2) 1 3) \<and>
   (\<exists>s'. kernel real_ops (start_env real_ops 1 3 (3 / 2) (1 / 2) 1 3) = Inr s' \<and>
      h s' = 1 / 2 \<and> f real_ops 1 3 (1 / 2) = - (3 / 8) \<and>
      x_forw s' ! 0 = 1 / 2 \<and> x_forw s' ! 1 = 5 / 16 \<and> x_forw s' ! 2 = 1405 / 8192 \<and>
      (\<exists>r. kernel real_ops (start_env real_ops 1 3 (3 / 2) (1 / 2) 7 3) = Inr r \<and>
         x_forw r = x_forw s'))"
proof -
  let ?e = "start_env real_ops 1 3 (3 / 2) (1 / 2) 1 3"
  let ?e2 = "start_env real_ops 1 3 (3 / 2) (1 / 2) 7 3"
  have n: "1 \<le> N ?e" by (simp add: start_env_def)
  obtain s' where k: "kernel real_ops ?e = Inr s'"
    and hh: "h s' = fl_div real_ops (T ?e) (fl_of_int real_ops (int (N ?e)))"
    and first: "x_forw s' ! 0 = x0 ?e"
    and rhs: "\<forall>x. f real_ops (lam ?e) (alpha ?e) x =
       fl_add real_ops (fl_mul real_ops (fl_neg real_ops (lam ?e)) x) (fl_pow real_ops x (alpha ?e))"
    and rec: "\<forall>i. i < N ?e \<longrightarrow>
       x_forw s' ! (i + 1) =
         fl_add real_ops (x_forw s' ! i)
           (fl_mul real_ops (h s')
              (fl_add real_ops (fl_mul real_ops (fl_neg real_ops (lam ?e)) (x_forw s' ! i))
                 (fl_pow real_ops (x_forw s' ! i) (alpha ?e))))"
    and indep: "\<forall>s2. lam s2 = lam ?e \<and> alpha s2 = alpha ?e \<and> T s2 = T ?e \<and> x0 s2 = x0 ?e \<and>
        N s2 = N ?e \<longrightarrow>
       (\<exists>r. kernel real_ops s2 = Inr r \<and> x_forw r = x_forw s')"
    using kernel_forward_march [OF n, of real_ops] by (elim exE conjE)
  have h1: "h s' = 1 / 2" using hh by (simp add: start_env_def real_ops_def)
  have "f real_ops 1 3 (1 / 2) =
      fl_add real_ops (fl_mul real_ops (fl_neg real_ops 1) (1 / 2)) (fl_pow real_ops (1 / 2) 3)"
    using rhs [rule_format, of "1 / 2"] by (simp add: start_env_def)
  also have "\<dots> = - (3 / 8)"
    by (simp add: real_ops_def eval_nat_numeral)
  finally have fv: "f real_ops 1 3 (1 / 2) = - (3 / 8)" .
  have v0: "x_forw s' ! 0 = 1 / 2" using first by (simp add: start_env_def)
  have v1: "x_forw s' ! Suc 0 = 5 / 16"
    using rec [rule_format, of 0]
    by (simp add: start_env_def real_ops_def h1 v0 eval_nat_numeral)
  have v2: "x_forw s' ! Suc (Suc 0) = 1405 / 8192"
    using rec [rule_format, of 1]
    by (simp add: start_env_def real_ops_def h1 v1 eval_nat_numeral)
  have v1': "x_forw s' ! 1 = 5 / 16" using v1 by simp
  have v2': "x_forw s' ! 2 = 1405 / 8192" using v2 by (simp add: eval_nat_numeral)
  have other: "\<exists>r. kernel real_ops ?e2 = Inr r \<and> x_forw r = x_forw s'"
    using indep [rule_format, of ?e2] by (simp add: start_env_def)
  have "\<exists>s'. kernel real_ops ?e = Inr s' \<and>
      h s' = 1 / 2 \<and> f real_ops 1 3 (1 / 2) = - (3 / 8) \<and>
      x_forw s' ! 0 = 1 / 2 \<and> x_forw s' ! 1 = 5 / 16 \<and> x_forw s' ! 2 = 1405 / 8192 \<and>
      (\<exists>r. kernel real_ops ?e2 = Inr r \<and> x_forw r = x_forw s')"
    by (rule exI [of _ s']) (intro conjI k h1 fv v0 v1' v2' other)
  then show ?thesis using n by (intro conjI)
qed

subsection \<open>Determinism\<close>

text \<open>
  Claim C7.  Two runs from environments with the same six inputs end alike: both fail
  with the same error, or both return, with identical grids and identical backward,
  central and forward trajectories, whatever the assigned variables held before.  A
  run leaves the six inputs as they were, and running the kernel again on the
  environment it returned reproduces that environment.  Identity is equality of
  values of the number type, for every arithmetic.
\<close>

theorem kernel_deterministic:
  "(inputs s2 = inputs s1 \<longrightarrow>
      map_sum id outputs (kernel A s2) = map_sum id outputs (kernel A s1)) \<and>
   (\<forall>r. kernel A s1 = Inr r \<longrightarrow> inputs r = inputs s1 \<and> kernel A r = Inr r)"
  using kernel_same_inputs [of s2 s1 A] kernel_rerun [of A s1]
  by (intro conjI allI impI)

theorem kernel_deterministic_witness:
  "inputs ((start_env real_ops 7 3 1 (1 / 2) 0 200)\<lparr>h := 9, x_forw := [4, 2]\<rparr>) =
     inputs (start_env real_ops 7 3 1 (1 / 2) 0 200) \<and>
   map_sum id outputs
     (kernel real_ops ((start_env real_ops 7 3 1 (1 / 2) 0 200)\<lparr>h := 9, x_forw := [4, 2]\<rparr>)) =
   map_sum id outputs (kernel real_ops (start_env real_ops 7 3 1 (1 / 2) 0 200)) \<and>
   (\<exists>r. kernel real_ops (start_env real_ops 7 3 1 (1 / 2) 0 200) = Inr r \<and>
      inputs r = inputs (start_env real_ops 7 3 1 (1 / 2) 0 200) \<and> kernel real_ops r = Inr r)"
proof -
  let ?e = "start_env real_ops 7 3 1 (1 / 2) 0 200"
  let ?e2 = "?e\<lparr>h := 9, x_forw := [4, 2]\<rparr>"
  have i: "inputs ?e2 = inputs ?e" by (simp add: inputs_def)
  have n: "1 \<le> N ?e" by (simp add: start_env_def)
  obtain r where k: "kernel real_ops ?e = Inr r"
    using kernel_total [OF n] ..
  have same: "map_sum id outputs (kernel real_ops ?e2) = map_sum id outputs (kernel real_ops ?e)"
    by (rule kernel_deterministic [of ?e2 ?e real_ops, THEN conjunct1, rule_format, OF i])
  have again: "inputs r = inputs ?e \<and> kernel real_ops r = Inr r"
    by (rule kernel_deterministic [of ?e2 ?e real_ops, THEN conjunct2, rule_format, OF k])
  have "\<exists>r. kernel real_ops ?e = Inr r \<and> inputs r = inputs ?e \<and> kernel real_ops r = Inr r"
    by (rule exI [of _ r]) (intro conjI k again [THEN conjunct1] again [THEN conjunct2])
  then show ?thesis using i same by (intro conjI)
qed

subsection \<open>Division by zero\<close>

text \<open>
  Claim C8.  If \<open>N = 0\<close>, the division \<open>h = T / N\<close> raises \<open>ZeroDivisionError\<close> and
  the kernel ends with that error, no trajectory produced.  If \<open>N \<ge> 1\<close>, the division
  yields \<open>h\<close> and the whole kernel returns: no error is raised anywhere in it.
\<close>

theorem kernel_division_by_zero:
  "(N s = 0 \<longrightarrow>
      py_truediv A (T s) (N s) = Inl ZeroDivisionError \<and> kernel A s = Inl ZeroDivisionError) \<and>
   (1 \<le> N s \<longrightarrow>
      py_truediv A (T s) (N s) = Inr (fl_div A (T s) (fl_of_int A (int (N s)))) \<and>
      (\<exists>s'. kernel A s = Inr s' \<and> h s' = fl_div A (T s) (fl_of_int A (int (N s)))))"
proof (intro conjI impI)
  assume z: "N s = 0"
  show "py_truediv A (T s) (N s) = Inl ZeroDivisionError" using z by (simp add: py_truediv_def)
  show "kernel A s = Inl ZeroDivisionError" by (rule kernel_zero [OF z])
next
  assume n: "1 \<le> N s"
  show "py_truediv A (T s) (N s) = Inr (fl_div A (T s) (fl_of_int A (int (N s))))"
    by (rule py_truediv_pos [OF n])
  obtain s' where k: "kernel A s = Inr s'"
    and hh: "h s' = fl_div A (T s) (fl_of_int A (int (N s)))"
    by (rule kernel_run [OF n])
  show "\<exists>s'. kernel A s = Inr s' \<and> h s' = fl_div A (T s) (fl_of_int A (int (N s)))"
    using k hh by (intro exI [of _ s'] conjI)
qed

theorem kernel_division_by_zero_witness:
  "N (start_env real_ops 7 3 1 (1 / 2) 0 0) = 0 \<and>
   kernel real_ops (start_env real_ops 7 3 1 (1 / 2) 0 0) = Inl ZeroDivisionError \<and>
   1 \<le> N (start_env real_ops 7 3 1 (1 / 2) 0 200) \<and>
   (\<exists>s'. kernel real_ops (start_env real_ops 7 3 1 (1 / 2) 0 200) = Inr s' \<and> h s' = 1 / 200)"
proof -
  let ?z = "start_env real_ops 7 3 1 (1 / 2) 0 0"
  let ?e = "start_env real_ops 7 3 1 (1 / 2) 0 200"
  have z: "N ?z = 0" by (simp add: start_env_def)
  have n: "1 \<le> N ?e" by (simp add: start_env_def)
  have hv: "fl_div real_ops (T ?e) (fl_of_int real_ops (int (N ?e))) = 1 / 200"
    by (simp add: start_env_def real_ops_def)
  have a: "kernel real_ops ?z = Inl ZeroDivisionError"
    by (rule kernel_division_by_zero
        [of ?z real_ops, THEN conjunct1, rule_format, OF z, THEN conjunct2])
  have b: "\<exists>s'. kernel real_ops ?e = Inr s' \<and> h s' = 1 / 200"
    using kernel_division_by_zero
        [of ?e real_ops, THEN conjunct2, rule_format, OF n, THEN conjunct2]
    unfolding hv .
  show ?thesis using z a n b by (intro conjI)
qed

end
